theory Spec2Isabelle
  imports Complex_Main "HOL-Library.AList"
begin

section \<open>Analytics client (src/shared/api/analyticsClient.ts)\<close>

text \<open>
  JavaScript numbers are modelled as \<^typ>\<open>real\<close> where the source computes with
  fractions (positions, rates, \<^verbatim>\<open>Math.random()\<close>), as \<^typ>\<open>int\<close> where it counts
  (\<^verbatim>\<open>limit\<close>, \<^verbatim>\<open>Date.now()\<close> in milliseconds) and as \<^typ>\<open>nat\<close> for array
  indices and HTTP status codes. \<^verbatim>\<open>null\<close> and \<^verbatim>\<open>undefined\<close> are \<open>None\<close>.
  Every call of \<^verbatim>\<open>Math.random()\<close> and \<^verbatim>\<open>Date.now()\<close> is an argument of the model.
\<close>

subsection \<open>Types\<close>


text \<open>The fields of \<^verbatim>\<open>Recommendation\<close> carry the prefix \<open>rec_\<close>: several of them
  share their name with a field of \<^verbatim>\<open>StreamInfo\<close>.\<close>

record Recommendation =
  rec_id :: string
  rec_title :: string
  rec_thumbnail :: string
  rec_duration :: real
  rec_channel :: string
  rec_views :: real

record ViewerStats =
  current_viewers :: real
  total_views :: real
  avg_watch_time :: real
  engagement_rate :: real

record WatchSession =
  session_id :: string
  content_id :: string
  start_time :: int
  last_heartbeat :: int

record SessionMetadata =
  device_type :: string
  platform :: string
  browser :: string
  screen_resolution :: string

subsection \<open>Template literals\<close>

text \<open>Decimal rendering of an integer, as a template literal renders a whole number.\<close>

definition digit_char :: "nat \<Rightarrow> char" where
  "digit_char d = char_of (48 + d)"

fun show_nat :: "nat \<Rightarrow> string" where
  "show_nat n = (if n < 10 then [digit_char n] else show_nat (n div 10) @ [digit_char (n mod 10)])"

declare show_nat.simps [simp del]

definition show_int :: "int \<Rightarrow> string" where
  "show_int i = (if i < 0 then CHR ''-'' # show_nat (nat (- i)) else show_nat (nat i))"

subsection \<open>The network seen by the transport\<close>

text \<open>
  The value handed to \<^verbatim>\<open>JSON.stringify\<close> for a request body; a field whose value is
  \<open>JUndefined\<close> is the one \<^verbatim>\<open>JSON.stringify\<close> leaves out.
\<close>

datatype json = JNum real | JStr string | JObj "(string \<times> json) list" | JUndefined

record RequestInit =
  req_method :: "string option"
  req_body :: "json option"
  req_headers :: "(string \<times> string) list"

record request =
  url :: string
  init_method :: "string option"
  init_body :: "json option"
  headers :: "(string \<times> string) list"

text \<open>
  What \<^verbatim>\<open>response.json()\<close> does with the body: it rejects (the body is not JSON), it
  yields \<^verbatim>\<open>null\<close>, or it yields a payload of the expected type \<open>'a\<close>.
\<close>

datatype 'a json_result = ParseFails string | JsonNull | Parsed 'a

text \<open>
  What the browser's \<^verbatim>\<open>fetch\<close> does with a request: its promise rejects (network
  failure), or it resolves to a response with a status and a body.
\<close>

datatype 'a net_outcome = Rejects string | Responds nat "'a json_result"

type_synonym 'a network = "request \<Rightarrow> 'a net_outcome"

datatype console = ConsoleWarn nat string | ConsoleError string string

definition response_ok :: "nat \<Rightarrow> bool" where
  "response_ok status = (200 \<le> status \<and> status \<le> 299)"

text \<open>The spread \<^verbatim>\<open>{'Content-Type': 'application/json', ...options?.headers}\<close>:
  a later key replaces an earlier one.\<close>

fun spread :: "(string \<times> string) list \<Rightarrow> (string \<times> string) list \<Rightarrow> (string \<times> string) list" where
  "spread base [] = base"
| "spread base ((k, v) # rest) = spread (AList.update k v base) rest"

definition build_request :: "string \<Rightarrow> string \<Rightarrow> RequestInit option \<Rightarrow> request" where
  "build_request base endpoint options =
     \<lparr> url = base @ endpoint,
       init_method = (case options of None \<Rightarrow> None | Some opts \<Rightarrow> req_method opts),
       init_body = (case options of None \<Rightarrow> None | Some opts \<Rightarrow> req_body opts),
       headers = spread [(''Content-Type'', ''application/json'')]
                   (case options of None \<Rightarrow> [] | Some opts \<Rightarrow> req_headers opts) \<rparr>"

subsection \<open>Telemetry transport: the private method fetch\<close>

text \<open>
  The body of the \<^verbatim>\<open>try\<close> block: \<open>Inl\<close> is an exception thrown inside it (the
  rejection of an awaited promise), \<open>Inr\<close> is a \<^verbatim>\<open>return\<close> together with what was
  written to the console.
\<close>

definition fetch_try :: "string \<Rightarrow> 'a network \<Rightarrow> string \<Rightarrow> RequestInit option
    \<Rightarrow> string + ('a option \<times> console list)" where
  "fetch_try base net endpoint options =
     (case net (build_request base endpoint options) of
        Rejects err \<Rightarrow> Inl err
      | Responds status body \<Rightarrow>
          if \<not> response_ok status then Inr (None, [ConsoleWarn status endpoint])
          else (case body of
                  ParseFails err \<Rightarrow> Inl err
                | JsonNull \<Rightarrow> Inr (None, [])
                | Parsed v \<Rightarrow> Inr (Some v, [])))"

text \<open>The \<^verbatim>\<open>catch\<close> clause turns every exception of the block into \<^verbatim>\<open>null\<close>.\<close>

definition fetch :: "string \<Rightarrow> 'a network \<Rightarrow> string \<Rightarrow> RequestInit option
    \<Rightarrow> 'a option \<times> console list" where
  "fetch base net endpoint options =
     (case fetch_try base net endpoint options of
        Inl err \<Rightarrow> (None, [ConsoleError endpoint err])
      | Inr r \<Rightarrow> r)"

subsection \<open>Read operations\<close>



definition titles :: "string list" where
  "titles =
     [''AI Generated Space Documentary'',
      ''Futuristic City Tour'',
      ''Ocean Wildlife Special'',
      ''Tech Innovation Series'',
      ''Cultural Heritage Journey'',
      ''Science Explained Simply'',
      ''Adventure Travel Show'',
      ''Music & Art Fusion'']"

definition channels :: "string list" where
  "channels =
     [''IntuiTV Docs'',
      ''IntuiTV Travel'',
      ''IntuiTV Science'',
      ''IntuiTV Culture'',
      ''IntuiTV Entertainment'']"

text \<open>
  The callback of \<^verbatim>\<open>Array.from\<close> for index \<open>i\<close>. It calls \<^verbatim>\<open>Math.random()\<close> twice,
  first for the duration and then for the views: \<open>rnd k\<close> is the value of the \<open>k\<close>-th
  call made while the list is built.
\<close>

definition mock_entry :: "(nat \<Rightarrow> real) \<Rightarrow> nat \<Rightarrow> Recommendation" where
  "mock_entry rnd i =
     \<lparr> rec_id = ''rec-'' @ show_nat i,
       rec_title = titles ! (i mod length titles),
       rec_thumbnail = ''https://cdn.intuitv.app/thumbs/rec-'' @ show_nat i @ ''.jpg'',
       rec_duration = of_int \<lfloor>300 + rnd (2 * i) * 600\<rfloor>,
       rec_channel = channels ! (i mod length channels),
       rec_views = of_int \<lfloor>10000 + rnd (2 * i + 1) * 90000\<rfloor> \<rparr>"




text \<open>The four arguments \<open>r1\<close> to \<open>r4\<close> are the four calls of \<^verbatim>\<open>Math.random()\<close>.\<close>

definition stats_fallback :: "real \<Rightarrow> real \<Rightarrow> real \<Rightarrow> real \<Rightarrow> ViewerStats" where
  "stats_fallback r1 r2 r3 r4 =
     \<lparr> current_viewers = of_int \<lfloor>10000 + r1 * 5000\<rfloor>,
       total_views = of_int \<lfloor>500000 + r2 * 100000\<rfloor>,
       avg_watch_time = 4.2 + r3 * 2,
       engagement_rate = 0.75 + r4 * 0.2 \<rparr>"


subsection \<open>Sessions\<close>

definition metadata_json :: "SessionMetadata option \<Rightarrow> json" where
  "metadata_json metadata =
     (case metadata of
        None \<Rightarrow> JUndefined
      | Some m \<Rightarrow> JObj [(''device_type'', JStr (device_type m)),
                        (''platform'', JStr (platform m)),
                        (''browser'', JStr (browser m)),
                        (''screen_resolution'', JStr (screen_resolution m))])"

text \<open>
  \<^verbatim>\<open>Date.now()\<close> is read three times: \<open>t_req\<close> for the request's timestamp, then
  \<open>t_start\<close> and \<open>t_beat\<close> for the two fields of the synthesized record.
\<close>

definition start_options :: "int \<Rightarrow> string \<Rightarrow> string \<Rightarrow> SessionMetadata option \<Rightarrow> RequestInit" where
  "start_options t_req contentId sessionId metadata =
     \<lparr> req_method = Some ''POST'',
       req_body = Some (JObj [(''content_id'', JStr contentId),
                              (''session_id'', JStr sessionId),
                              (''metadata'', metadata_json metadata),
                              (''timestamp'', JNum (of_int t_req))]),
       req_headers = [] \<rparr>"

definition startSession :: "string \<Rightarrow> WatchSession network \<Rightarrow> int \<Rightarrow> int \<Rightarrow> int
    \<Rightarrow> string \<Rightarrow> string \<Rightarrow> SessionMetadata option \<Rightarrow> WatchSession option \<times> console list" where
  "startSession base net t_req t_start t_beat contentId sessionId metadata =
     (let (data, out) =
            fetch base net ''/watch/session/start''
              (Some (start_options t_req contentId sessionId metadata))
      in case data of
           None \<Rightarrow> (Some \<lparr> session_id = sessionId, content_id = contentId,
                           start_time = t_start, last_heartbeat = t_beat \<rparr>, out)
         | Some d \<Rightarrow> (Some d, out))"

subsection \<open>Live statistics over a WebSocket: connectToLiveStats\<close>

text \<open>
  The browser's socket is the environment of \<^verbatim>\<open>connectToLiveStats\<close>. Its
  \<^verbatim>\<open>readyState\<close> moves from CONNECTING to OPEN when the connection is established, to
  CLOSING when \<^verbatim>\<open>close()\<close> is called on an open socket, and to CLOSED when the
  connection ends; the browser dispatches a message event only while the socket is OPEN.
  The constructor throws on a URL it cannot accept; then there is no socket.
\<close>

datatype ready_state = CONNECTING | OPEN | CLOSING | CLOSED

datatype ws_console = MessageParseError | SocketError | ConnectionError

record live_stats =
  socket :: "ready_state option"
  updates :: "ViewerStats list"
  ws_log :: "ws_console list"
  close_calls :: nat

text \<open>
  What can happen to a subscription: the socket opens, a message arrives (\<open>None\<close>
  when \<^verbatim>\<open>JSON.parse\<close> throws on its data), the socket reports an error, the
  connection ends, or the caller invokes the returned function.
\<close>

datatype ws_event = WsOpen | WsMessage "ViewerStats option" | WsError | WsClosed | Unsubscribe

text \<open>The argument says whether \<^verbatim>\<open>new WebSocket(...)\<close> throws.\<close>

definition connectToLiveStats :: "bool \<Rightarrow> live_stats" where
  "connectToLiveStats constructor_throws =
     (if constructor_throws
      then \<lparr> socket = None, updates = [], ws_log = [ConnectionError], close_calls = 0 \<rparr>
      else \<lparr> socket = Some CONNECTING, updates = [], ws_log = [], close_calls = 0 \<rparr>)"

text \<open>The handler \<^verbatim>\<open>ws.onmessage\<close>: \<open>updates\<close> records each call of \<^verbatim>\<open>onUpdate\<close>.\<close>

definition onmessage :: "ViewerStats option \<Rightarrow> live_stats \<Rightarrow> live_stats" where
  "onmessage parsed s =
     (case parsed of
        Some stats \<Rightarrow> s\<lparr>updates := updates s @ [stats]\<rparr>
      | None \<Rightarrow> s\<lparr>ws_log := ws_log s @ [MessageParseError]\<rparr>)"

text \<open>
  The returned function: \<^verbatim>\<open>() => {}\<close> when the constructor threw, otherwise the
  closure that calls \<^verbatim>\<open>ws.close()\<close> if the socket is OPEN.
\<close>

definition unsubscribe :: "live_stats \<Rightarrow> live_stats" where
  "unsubscribe s =
     (case socket s of
        None \<Rightarrow> s
      | Some st \<Rightarrow>
          if st = OPEN then s\<lparr>socket := Some CLOSING, close_calls := close_calls s + 1\<rparr>
          else s)"

fun ws_step :: "live_stats \<Rightarrow> ws_event \<Rightarrow> live_stats" where
  "ws_step s WsOpen = (if socket s = Some CONNECTING then s\<lparr>socket := Some OPEN\<rparr> else s)"
| "ws_step s (WsMessage parsed) = (if socket s = Some OPEN then onmessage parsed s else s)"
| "ws_step s WsError = (if socket s = None then s else s\<lparr>ws_log := ws_log s @ [SocketError]\<rparr>)"
| "ws_step s WsClosed = (if socket s = None then s else s\<lparr>socket := Some CLOSED\<rparr>)"
| "ws_step s Unsubscribe = unsubscribe s"

definition ws_run :: "live_stats \<Rightarrow> ws_event list \<Rightarrow> live_stats" where
  "ws_run = foldl ws_step"

section \<open>Fault recovery of the HLS pipeline (src/components/WebPlayer.tsx)\<close>

text \<open>The members of \<^verbatim>\<open>Hls.ErrorTypes\<close>, and the calls the handler makes on the pipeline.\<close>

datatype ErrorTypes = NETWORK_ERROR | MEDIA_ERROR | KEY_SYSTEM_ERROR | MUX_ERROR | OTHER_ERROR

record ErrorData =
  fatal :: bool
  error_type :: ErrorTypes

datatype hls_call = StartLoad | RecoverMediaError | Destroy

definition on_error :: "ErrorData \<Rightarrow> hls_call list" where
  "on_error data =
     (if fatal data then
        (case error_type data of
           NETWORK_ERROR \<Rightarrow> [StartLoad]
         | MEDIA_ERROR \<Rightarrow> [RecoverMediaError]
         | _ \<Rightarrow> [Destroy])
      else [])"

section \<open>Session telemetry of the player (src/components/WebPlayer.tsx)\<close>

text \<open>
  The component is modelled as a state machine over the events the video element and the
  browser deliver to it. The state holds the React state cells and the ref the telemetry
  code reads (\<^verbatim>\<open>playing\<close>, \<^verbatim>\<open>currentTime\<close>, \<^verbatim>\<open>sessionId\<close>, \<^verbatim>\<open>sessionStarted\<close>,
  \<^verbatim>\<open>startTimeRef\<close>), and what lies outside the component: the wall clock, the browser's
  table of armed intervals, the calls issued so far, and the heartbeat requests whose
  promise has not settled yet. The cells for volume, mute, fullscreen, quality and duration
  take no part in the telemetry and are left out.
\<close>

record WebPlayerProps =
  contentId :: int
  onEnded :: bool

record browser =
  userAgent :: string
  screen_width :: nat
  screen_height :: nat

datatype call =
    StartSession string string SessionMetadata
  | SendHeartbeat string int
  | EndSession string int
  | OnEndedCallback

text \<open>An armed interval: the closure passed to \<^verbatim>\<open>setInterval\<close> holds the
  \<^verbatim>\<open>currentTime\<close> of the render that created it.\<close>

record interval =
  interval_id :: nat
  due :: int
  captured_time :: real

record player =
  playing :: bool
  currentTime :: real
  sessionId :: string
  sessionStarted :: bool
  startTimeRef :: int
  mounted :: bool
  heartbeat_cleanup :: "nat option"
  intervals :: "interval list"
  next_interval :: nat
  clock :: int
  calls :: "call list"
  in_flight :: "(string \<times> int) list"

datatype event =
    Play
  | Pause
  | TimeUpdate real
  | Ended
  | Elapse nat
  | HeartbeatSettled
  | Unmount

definition session_metadata :: "browser \<Rightarrow> SessionMetadata" where
  "session_metadata b =
     \<lparr> device_type = ''desktop'',
       platform = ''web'',
       browser = userAgent b,
       screen_resolution = show_nat (screen_width b) @ ''x'' @ show_nat (screen_height b) \<rparr>"

text \<open>The effect "Start Analytics Session".\<close>

definition session_effect :: "WebPlayerProps \<Rightarrow> browser \<Rightarrow> player \<Rightarrow> player" where
  "session_effect props b s =
     (if playing s \<and> \<not> sessionStarted s then
        s\<lparr> sessionStarted := True,
           startTimeRef := clock s,
           calls := calls s @ [StartSession (show_int (contentId props)) (sessionId s)
                                 (session_metadata b)] \<rparr>
      else s)"

definition clearInterval :: "nat \<Rightarrow> player \<Rightarrow> player" where
  "clearInterval i s = s\<lparr>intervals := filter (\<lambda>t. interval_id t \<noteq> i) (intervals s)\<rparr>"

text \<open>The effect "Heartbeat (every 30s)": its body, and the cleanup function it returned
  when it last ran (none when it returned early).\<close>

definition heartbeat_effect :: "player \<Rightarrow> player" where
  "heartbeat_effect s =
     (if \<not> playing s then s\<lparr>heartbeat_cleanup := None\<rparr>
      else
        s\<lparr> intervals := intervals s @
               [\<lparr> interval_id = next_interval s, due = clock s + 30000,
                  captured_time = currentTime s \<rparr>],
           next_interval := next_interval s + 1,
           heartbeat_cleanup := Some (next_interval s) \<rparr>)"

definition run_heartbeat_cleanup :: "player \<Rightarrow> player" where
  "run_heartbeat_cleanup s =
     (case heartbeat_cleanup s of
        None \<Rightarrow> s
      | Some i \<Rightarrow> (clearInterval i s)\<lparr>heartbeat_cleanup := None\<rparr>)"

text \<open>
  After a handler has changed the state from \<open>old\<close> to \<open>s\<close>, React renders and runs
  the effects whose dependencies changed: first the cleanup functions of those effects,
  then their bodies in the order of declaration. The props and \<^verbatim>\<open>sessionId\<close> do not
  change during a mount, so the session effect depends on \<^verbatim>\<open>playing\<close> and
  \<^verbatim>\<open>sessionStarted\<close>, the heartbeat effect on \<^verbatim>\<open>playing\<close> and \<^verbatim>\<open>currentTime\<close>.
  When the session effect sets \<^verbatim>\<open>sessionStarted\<close>, the component renders once more and
  the session effect runs again.
\<close>

definition commit :: "WebPlayerProps \<Rightarrow> browser \<Rightarrow> player \<Rightarrow> player \<Rightarrow> player" where
  "commit props b old s =
     (let heartbeat_deps = (playing old \<noteq> playing s \<or> currentTime old \<noteq> currentTime s);
          session_deps = (playing old \<noteq> playing s \<or> sessionStarted old \<noteq> sessionStarted s);
          s1 = (if heartbeat_deps then run_heartbeat_cleanup s else s);
          s2 = (if session_deps then session_effect props b s1 else s1);
          s3 = (if heartbeat_deps then heartbeat_effect s2 else s2)
      in if sessionStarted s3 \<noteq> sessionStarted s then session_effect props b s3 else s3)"

definition handlePlay :: "player \<Rightarrow> player" where
  "handlePlay s = s\<lparr>playing := True\<rparr>"

definition handlePause :: "player \<Rightarrow> player" where
  "handlePause s = s\<lparr>playing := False\<rparr>"

definition handleTimeUpdate :: "real \<Rightarrow> player \<Rightarrow> player" where
  "handleTimeUpdate video_time s = s\<lparr>currentTime := video_time\<rparr>"

text \<open>\<^verbatim>\<open>Math.floor((Date.now() - startTimeRef.current) / 1000)\<close> on whole milliseconds
  is the integer division that rounds down.\<close>

definition handleEnded :: "WebPlayerProps \<Rightarrow> player \<Rightarrow> player" where
  "handleEnded props s =
     (let watchTime = (clock s - startTimeRef s) div 1000
      in s\<lparr> playing := False,
            calls := calls s @ [EndSession (sessionId s) watchTime]
                       @ (if onEnded props then [OnEndedCallback] else []) \<rparr>)"

text \<open>
  Wall-clock time passes: an interval whose due time is reached fires, once for every
  30000 ms reached, and stays armed. Each firing calls
  \<^verbatim>\<open>sendHeartbeat(sessionId, Math.floor(currentTime))\<close> with the \<^verbatim>\<open>currentTime\<close> its
  closure holds; the request is in flight from then on.
\<close>

definition fire_count :: "int \<Rightarrow> interval \<Rightarrow> nat" where
  "fire_count now t = (if due t \<le> now then nat ((now - due t) div 30000) + 1 else 0)"

definition rearm :: "int \<Rightarrow> interval \<Rightarrow> interval" where
  "rearm now t = t\<lparr>due := due t + 30000 * int (fire_count now t)\<rparr>"

definition elapse :: "nat \<Rightarrow> player \<Rightarrow> player" where
  "elapse d s =
     (let now = clock s + int d;
          fired = concat (map (\<lambda>t. replicate (fire_count now t)
                                       (sessionId s, \<lfloor>captured_time t\<rfloor>)) (intervals s))
      in s\<lparr> clock := now,
            intervals := map (rearm now) (intervals s),
            calls := calls s @ map (\<lambda>(sid, pos). SendHeartbeat sid pos) fired,
            in_flight := in_flight s @ fired \<rparr>)"

text \<open>Unmounting runs the cleanup functions of the effects; an unmounted component
  receives no further events of the video element.\<close>

fun step :: "WebPlayerProps \<Rightarrow> browser \<Rightarrow> player \<Rightarrow> event \<Rightarrow> player" where
  "step props b s Play = (if mounted s then commit props b s (handlePlay s) else s)"
| "step props b s Pause = (if mounted s then commit props b s (handlePause s) else s)"
| "step props b s (TimeUpdate video_time) =
     (if mounted s then commit props b s (handleTimeUpdate video_time s) else s)"
| "step props b s Ended = (if mounted s then commit props b s (handleEnded props s) else s)"
| "step props b s (Elapse d) = elapse d s"
| "step props b s HeartbeatSettled = s\<lparr>in_flight := tl (in_flight s)\<rparr>"
| "step props b s Unmount =
     (if mounted s then (run_heartbeat_cleanup s)\<lparr>mounted := False\<rparr> else s)"

definition run :: "WebPlayerProps \<Rightarrow> browser \<Rightarrow> player \<Rightarrow> event list \<Rightarrow> player" where
  "run props b = foldl (step props b)"

text \<open>Mounting: the initial values of the state cells, then the first run of both effects.
  \<open>sid\<close> is the result of \<^verbatim>\<open>generateSessionId()\<close>, \<open>t0\<close> the time of mounting.\<close>

definition initial :: "string \<Rightarrow> int \<Rightarrow> player" where
  "initial sid t0 =
     \<lparr> playing = False, currentTime = 0, sessionId = sid, sessionStarted = False,
       startTimeRef = 0, mounted = True, heartbeat_cleanup = None, intervals = [],
       next_interval = 0, clock = t0, calls = [], in_flight = [] \<rparr>"

definition mount :: "WebPlayerProps \<Rightarrow> browser \<Rightarrow> string \<Rightarrow> int \<Rightarrow> player" where
  "mount props b sid t0 = heartbeat_effect (session_effect props b (initial sid t0))"

text \<open>Observations on the calls issued.\<close>

fun is_start :: "call \<Rightarrow> bool" where
  "is_start (StartSession _ _ _) = True"
| "is_start _ = False"

fun is_heartbeat :: "call \<Rightarrow> bool" where
  "is_heartbeat (SendHeartbeat _ _) = True"
| "is_heartbeat _ = False"

fun is_end :: "call \<Rightarrow> bool" where
  "is_end (EndSession _ _) = True"
| "is_end _ = False"

definition starts :: "player \<Rightarrow> call list" where
  "starts s = filter is_start (calls s)"

definition heartbeats :: "player \<Rightarrow> call list" where
  "heartbeats s = filter is_heartbeat (calls s)"

definition ends :: "player \<Rightarrow> call list" where
  "ends s = filter is_end (calls s)"


text \<open>
  A viewer who presses play and watches: every 250 ms the video element reports its
  position, which has advanced by a quarter of a second. \<open>watching n\<close> is the first
  \<open>n\<close> quarters of a second of that playback.
\<close>

fun watching :: "nat \<Rightarrow> event list" where
  "watching 0 = [Play]"
| "watching (Suc n) = watching n @ [Elapse 250, TimeUpdate (real (Suc n) / 4)]"

subsection \<open>Invariants of the player\<close>

text \<open>A playing component has started its session, and the calls of \<^verbatim>\<open>startSession\<close>
  issued so far are none before the session has started and one afterwards.\<close>

definition session_inv :: "WebPlayerProps \<Rightarrow> browser \<Rightarrow> player \<Rightarrow> bool" where
  "session_inv props b s =
     ((playing s \<longrightarrow> sessionStarted s)
      \<and> starts s = (if sessionStarted s
                    then [StartSession (show_int (contentId props)) (sessionId s) (session_metadata b)]
                    else []))"

text \<open>The armed intervals are exactly the one the pending cleanup function will clear, and
  an unmounted component has no cleanup pending.\<close>

definition heartbeat_inv :: "player \<Rightarrow> bool" where
  "heartbeat_inv s =
     ((case heartbeat_cleanup s of
         None \<Rightarrow> intervals s = []
       | Some i \<Rightarrow> map interval_id (intervals s) = [i])
      \<and> (\<not> mounted s \<longrightarrow> heartbeat_cleanup s = None))"

text \<open>Playback is under way and the interval was armed at this very instant: it is due
  a full 30 seconds from now, and no heartbeat has been sent.\<close>

definition freshly_armed :: "player \<Rightarrow> bool" where
  "freshly_armed s =
     (mounted s \<and> playing s \<and> heartbeats s = []
      \<and> (\<exists>t. intervals s = [t] \<and> heartbeat_cleanup s = Some (interval_id t)
               \<and> due t = clock s + 30000))"

text \<open>A subscription that can deliver no further message: there is no socket, or it is
  closing or closed.\<close>

definition deaf :: "live_stats \<Rightarrow> bool" where
  "deaf s = (socket s \<noteq> Some CONNECTING \<and> socket s \<noteq> Some OPEN)"

subsection \<open>Concrete inputs\<close>


definition demo_stats :: ViewerStats where
  "demo_stats = \<lparr> current_viewers = 12, total_views = 340, avg_watch_time = 5.5,
       engagement_rate = 0.5 \<rparr>"


definition demo_props :: WebPlayerProps where
  "demo_props = \<lparr>contentId = 1, onEnded = True\<rparr>"

definition demo_browser :: browser where
  "demo_browser = \<lparr>userAgent = ''Mozilla/5.0'', screen_width = 1920, screen_height = 1080\<rparr>"

definition demo_mount :: player where
  "demo_mount = mount demo_props demo_browser ''session-0-abc'' 0"


section \<open>Properties of the analytics client\<close>

subsection \<open>The transport\<close>

lemma fetch_cases:
  "fetch base net endpoint options =
     (case net (build_request base endpoint options) of
        Rejects err \<Rightarrow> (None, [ConsoleError endpoint err])
      | Responds status body \<Rightarrow>
          if \<not> response_ok status then (None, [ConsoleWarn status endpoint])
          else (case body of
                  ParseFails err \<Rightarrow> (None, [ConsoleError endpoint err])
                | JsonNull \<Rightarrow> (None, [])
                | Parsed v \<Rightarrow> (Some v, [])))"
  by (simp add: fetch_def fetch_try_def split: net_outcome.split json_result.split)

text \<open>
  Claim C8. The transport never throws across its boundary: its result is a pair of a
  value and console output, with no exception left. When the browser's fetch rejects,
  when the response status is outside 200 to 299, and when parsing the body fails, the
  value is \<^verbatim>\<open>null\<close> and one diagnostic is written to the console; this holds for every
  endpoint and every options argument. More generally every exception thrown inside the
  \<^verbatim>\<open>try\<close> block ends as \<^verbatim>\<open>null\<close> with a diagnostic.
\<close>

theorem fetch_unavailable:
  "(net (build_request base endpoint options) = Rejects err
      \<longrightarrow> fetch base net endpoint options = (None, [ConsoleError endpoint err]))
   \<and> (net (build_request base endpoint options) = Responds status body \<and> \<not> response_ok status
      \<longrightarrow> fetch base net endpoint options = (None, [ConsoleWarn status endpoint]))
   \<and> (net (build_request base endpoint options) = Responds status (ParseFails err)
        \<and> response_ok status
      \<longrightarrow> fetch base net endpoint options = (None, [ConsoleError endpoint err]))
   \<and> (fetch_try base net endpoint options = Inl err
      \<longrightarrow> fetch base net endpoint options = (None, [ConsoleError endpoint err]))"
  by (simp add: fetch_def fetch_try_def)

theorem fetch_unavailable_witness:
  "fetch ''https://api.intuitv.app'' (\<lambda>_. Rejects ''offline'' :: ViewerStats net_outcome)
      ''/watch/stats/7'' None = (None, [ConsoleError ''/watch/stats/7'' ''offline''])
   \<and> fetch ''https://api.intuitv.app'' (\<lambda>_. Responds 404 (Parsed demo_stats))
      ''/watch/stats/7'' None = (None, [ConsoleWarn 404 ''/watch/stats/7''])
   \<and> fetch ''https://api.intuitv.app''
        (\<lambda>_. Responds 200 (ParseFails ''bad'') :: ViewerStats net_outcome) ''/watch/stats/7''
        (Some \<lparr>req_method = Some ''POST'', req_body = None, req_headers = []\<rparr>)
      = (None, [ConsoleError ''/watch/stats/7'' ''bad''])
   \<and> fetch_try ''https://api.intuitv.app'' (\<lambda>_. Rejects ''offline'' :: ViewerStats net_outcome)
      ''/watch/stats/7'' None = Inl ''offline''"
proof -
  let ?base = "''https://api.intuitv.app''" and ?ep = "''/watch/stats/7''"
  have ok: "response_ok 200" and bad: "\<not> response_ok 404"
    by (simp_all add: response_ok_def)
  have t: "fetch_try ?base (\<lambda>_. Rejects ''offline'' :: ViewerStats net_outcome) ?ep None
             = Inl ''offline''"
    by (simp add: fetch_try_def)
  from fetch_unavailable [of "\<lambda>_. Rejects ''offline'' :: ViewerStats net_outcome" ?base ?ep None
          "''offline''" 404 "Parsed demo_stats"]
       fetch_unavailable [of "\<lambda>_. Responds 404 (Parsed demo_stats)" ?base ?ep None
          "''offline''" 404 "Parsed demo_stats"]
       fetch_unavailable [of "\<lambda>_. Responds 200 (ParseFails ''bad'') :: ViewerStats net_outcome"
          ?base ?ep "Some \<lparr>req_method = Some ''POST'', req_body = None, req_headers = []\<rparr>"
          "''bad''" 200 "ParseFails ''bad''"]
       ok bad t
  show ?thesis by simp
qed

subsection \<open>Read operations\<close>




text \<open>The synthetic statistics lie in the ranges the source aims at, for every value
  \<^verbatim>\<open>Math.random()\<close> can return.\<close>

lemma stats_fallback_ranges:
  assumes "0 \<le> r1" "r1 < 1" "0 \<le> r2" "r2 < 1" "0 \<le> r3" "r3 < 1" "0 \<le> r4" "r4 < 1"
  shows "10000 \<le> current_viewers (stats_fallback r1 r2 r3 r4)
       \<and> current_viewers (stats_fallback r1 r2 r3 r4) < 15000
       \<and> 500000 \<le> total_views (stats_fallback r1 r2 r3 r4)
       \<and> total_views (stats_fallback r1 r2 r3 r4) < 600000
       \<and> 0 \<le> engagement_rate (stats_fallback r1 r2 r3 r4)
       \<and> engagement_rate (stats_fallback r1 r2 r3 r4) \<le> 1"
proof -
  have a: "10000 \<le> \<lfloor>10000 + r1 * 5000\<rfloor>" using assms by (simp add: le_floor_iff)
  have b: "\<lfloor>10000 + r1 * 5000\<rfloor> < 15000" using assms by (simp add: floor_less_iff)
  have c: "500000 \<le> \<lfloor>500000 + r2 * 100000\<rfloor>" using assms by (simp add: le_floor_iff)
  have d: "\<lfloor>500000 + r2 * 100000\<rfloor> < 600000" using assms by (simp add: floor_less_iff)
  show ?thesis
    unfolding stats_fallback_def using a b c d assms by simp
qed



subsection \<open>The mock recommendations\<close>


lemma mock_entry_ranges:
  assumes "0 \<le> rnd (2 * i)" "rnd (2 * i) < 1" "0 \<le> rnd (2 * i + 1)" "rnd (2 * i + 1) < 1"
  shows "300 \<le> rec_duration (mock_entry rnd i) \<and> rec_duration (mock_entry rnd i) < 900
       \<and> 10000 \<le> rec_views (mock_entry rnd i) \<and> rec_views (mock_entry rnd i) < 100000"
proof -
  have a: "300 \<le> \<lfloor>300 + rnd (2 * i) * 600\<rfloor>"
    using assms by (simp add: le_floor_iff)
  have b: "\<lfloor>300 + rnd (2 * i) * 600\<rfloor> < 900"
    using assms by (simp add: floor_less_iff)
  have c: "10000 \<le> \<lfloor>10000 + rnd (2 * i + 1) * 90000\<rfloor>"
    using assms by (simp add: le_floor_iff)
  have d: "\<lfloor>10000 + rnd (2 * i + 1) * 90000\<rfloor> < 100000"
    using assms by (simp add: floor_less_iff)
  show ?thesis
    unfolding mock_entry_def using a b c d by simp
qed



subsection \<open>Starting a session\<close>

lemma startSession_cases:
  "startSession base net t_req t_start t_beat cid sid md =
     (case fetch base net ''/watch/session/start'' (Some (start_options t_req cid sid md)) of
        (None, out) \<Rightarrow> (Some \<lparr> session_id = sid, content_id = cid,
                                 start_time = t_start, last_heartbeat = t_beat \<rparr>, out)
      | (Some d, out) \<Rightarrow> (Some d, out))"
  by (simp add: startSession_def split: prod.split option.split)

text \<open>
  Claim C9. \<^verbatim>\<open>startSession\<close> never yields \<^verbatim>\<open>null\<close>, and when the transport has no
  record for it (the backend is unreachable, answers with an error status or with an
  unusable body) it returns a record synthesized locally, whose \<^verbatim>\<open>session_id\<close> and
  \<^verbatim>\<open>content_id\<close> are the arguments passed in.
\<close>

theorem startSession_never_fails:
  "fst (startSession base net t_req t_start t_beat cid sid md) \<noteq> None
   \<and> (fst (fetch base net ''/watch/session/start'' (Some (start_options t_req cid sid md))) = None
      \<longrightarrow> fst (startSession base net t_req t_start t_beat cid sid md)
            = Some \<lparr> session_id = sid, content_id = cid,
                     start_time = t_start, last_heartbeat = t_beat \<rparr>)"
  by (simp add: startSession_cases split: prod.split option.split)

theorem startSession_never_fails_witness:
  "fst (fetch ''https://api.intuitv.app'' (\<lambda>_. Rejects ''offline'' :: WatchSession net_outcome)
          ''/watch/session/start'' (Some (start_options 1000 ''1'' ''session-1000-abc'' None)))
     = None
   \<and> fst (startSession ''https://api.intuitv.app'' (\<lambda>_. Rejects ''offline'') 1000 1001 1002
              ''1'' ''session-1000-abc'' None)
      = Some \<lparr> session_id = ''session-1000-abc'', content_id = ''1'',
               start_time = 1001, last_heartbeat = 1002 \<rparr>"
proof -
  have down: "fst (fetch ''https://api.intuitv.app''
          (\<lambda>_. Rejects ''offline'' :: WatchSession net_outcome)
          ''/watch/session/start'' (Some (start_options 1000 ''1'' ''session-1000-abc'' None)))
        = None"
    by (simp add: fetch_cases)
  from startSession_never_fails [of "''https://api.intuitv.app''" "\<lambda>_. Rejects ''offline''"
         1000 1001 1002 "''1''" "''session-1000-abc''" None] down
  show ?thesis by simp
qed

section \<open>Properties of the live statistics channel\<close>

lemma unsubscribe_twice: "unsubscribe (unsubscribe s) = unsubscribe s"
  by (simp add: unsubscribe_def split: option.split)

lemma deaf_step: "deaf s \<Longrightarrow> deaf (ws_step s e) \<and> updates (ws_step s e) = updates s"
  by (cases e) (auto simp: deaf_def unsubscribe_def split: option.splits)

lemma deaf_run: "deaf s \<Longrightarrow> updates (ws_run s evs) = updates s"
  unfolding ws_run_def
proof (induction evs arbitrary: s)
  case Nil
  then show ?case by simp
next
  case (Cons e evs)
  from deaf_step [OF Cons.prems, of e] Cons.IH [of "ws_step s e"]
  show ?case by simp
qed

lemma deaf_unsubscribe: "socket s \<noteq> Some CONNECTING \<Longrightarrow> deaf (unsubscribe s)"
  by (auto simp: deaf_def unsubscribe_def split: option.splits)

text \<open>
  Claim C3, as amended. The function returned by the subscription is idempotent: calling
  it twice leaves the same state as calling it once. It is safe to call before the
  connection has opened, and when the socket could not be constructed: it then does
  nothing. When it is called on a socket that is no longer connecting (open, closing,
  closed, or absent), the update callback never fires again, whatever happens to the
  socket afterwards. A call made while the socket is still connecting is not covered: it
  leaves the socket as it is.
\<close>

theorem unsubscribe_safe:
  "unsubscribe (unsubscribe s) = unsubscribe s
   \<and> unsubscribe (connectToLiveStats constructor_throws) = connectToLiveStats constructor_throws
   \<and> (socket s \<noteq> Some CONNECTING
        \<longrightarrow> updates (ws_run (unsubscribe s) evs) = updates s)"
proof -
  have a: "unsubscribe (connectToLiveStats constructor_throws)
             = connectToLiveStats constructor_throws"
    by (simp add: unsubscribe_def connectToLiveStats_def)
  have b: "updates (ws_run (unsubscribe s) evs) = updates s" if "socket s \<noteq> Some CONNECTING"
  proof -
    have "updates (ws_run (unsubscribe s) evs) = updates (unsubscribe s)"
      using deaf_run [OF deaf_unsubscribe [OF that]] .
    also have "\<dots> = updates s"
      by (simp add: unsubscribe_def split: option.split)
    finally show ?thesis .
  qed
  from a b unsubscribe_twice show ?thesis by blast
qed

theorem unsubscribe_safe_witness:
  "socket (ws_run (connectToLiveStats False) [WsOpen, WsMessage (Some demo_stats)])
     \<noteq> Some CONNECTING
   \<and> updates (ws_run (unsubscribe (ws_run (connectToLiveStats False)
                                      [WsOpen, WsMessage (Some demo_stats)]))
        [WsMessage (Some demo_stats), Unsubscribe, WsMessage (Some demo_stats), WsClosed])
      = [demo_stats]"
proof -
  let ?s = "ws_run (connectToLiveStats False) [WsOpen, WsMessage (Some demo_stats)]"
  have s: "socket ?s \<noteq> Some CONNECTING" and u: "updates ?s = [demo_stats]"
    by (simp_all add: ws_run_def connectToLiveStats_def onmessage_def)
  from unsubscribe_safe [of ?s False
         "[WsMessage (Some demo_stats), Unsubscribe, WsMessage (Some demo_stats), WsClosed]"] s u
  show ?thesis by simp
qed

text \<open>Unsubscribing while the socket is still connecting does not close it: the socket
  opens afterwards and the next message reaches the update callback.\<close>

theorem update_after_early_unsubscribe:
  "updates (ws_run (unsubscribe (connectToLiveStats False)) [WsOpen, WsMessage (Some demo_stats)])
     = [demo_stats]"
  by (simp add: ws_run_def connectToLiveStats_def unsubscribe_def onmessage_def)

section \<open>Properties of the fault recovery\<close>

text \<open>
  Claim C5. The recovery action is determined by the class of a fatal pipeline error: a
  fatal network error resumes loading (\<^verbatim>\<open>startLoad\<close>) and does not destroy the pipeline, a
  fatal media error triggers the in-place media recovery, a fatal error of any other class
  destroys the pipeline, and an error that is not fatal triggers no action.
\<close>

theorem on_error_tiering:
  "(fatal data \<and> error_type data = NETWORK_ERROR \<longrightarrow> on_error data = [StartLoad])
   \<and> (fatal data \<and> error_type data = MEDIA_ERROR \<longrightarrow> on_error data = [RecoverMediaError])
   \<and> (fatal data \<and> error_type data \<noteq> NETWORK_ERROR \<and> error_type data \<noteq> MEDIA_ERROR
        \<longrightarrow> on_error data = [Destroy])
   \<and> (\<not> fatal data \<longrightarrow> on_error data = [])"
  by (cases "error_type data") (simp_all add: on_error_def)

theorem on_error_tiering_witness:
  "on_error \<lparr>fatal = True, error_type = NETWORK_ERROR\<rparr> = [StartLoad]
   \<and> on_error \<lparr>fatal = True, error_type = MEDIA_ERROR\<rparr> = [RecoverMediaError]
   \<and> on_error \<lparr>fatal = True, error_type = MUX_ERROR\<rparr> = [Destroy]
   \<and> on_error \<lparr>fatal = False, error_type = NETWORK_ERROR\<rparr> = []"
  using on_error_tiering [of "\<lparr>fatal = True, error_type = NETWORK_ERROR\<rparr>"]
        on_error_tiering [of "\<lparr>fatal = True, error_type = MEDIA_ERROR\<rparr>"]
        on_error_tiering [of "\<lparr>fatal = True, error_type = MUX_ERROR\<rparr>"]
        on_error_tiering [of "\<lparr>fatal = False, error_type = NETWORK_ERROR\<rparr>"]
  by simp

section \<open>Properties of the session telemetry\<close>

subsection \<open>Invariants\<close>

lemmas player_defs =
  commit_def session_effect_def heartbeat_effect_def
  handlePlay_def handlePause_def handleTimeUpdate_def handleEnded_def elapse_def

lemma run_heartbeat_cleanup_fields [simp]:
  "playing (run_heartbeat_cleanup s) = playing s"
  "currentTime (run_heartbeat_cleanup s) = currentTime s"
  "sessionId (run_heartbeat_cleanup s) = sessionId s"
  "sessionStarted (run_heartbeat_cleanup s) = sessionStarted s"
  "startTimeRef (run_heartbeat_cleanup s) = startTimeRef s"
  "mounted (run_heartbeat_cleanup s) = mounted s"
  "next_interval (run_heartbeat_cleanup s) = next_interval s"
  "clock (run_heartbeat_cleanup s) = clock s"
  "calls (run_heartbeat_cleanup s) = calls s"
  "in_flight (run_heartbeat_cleanup s) = in_flight s"
  "heartbeat_cleanup (run_heartbeat_cleanup s) = None"
  by (simp_all add: run_heartbeat_cleanup_def clearInterval_def split: option.split)

lemma run_heartbeat_cleanup_intervals:
  "heartbeat_inv s \<Longrightarrow> intervals (run_heartbeat_cleanup s) = []"
  by (auto simp: heartbeat_inv_def run_heartbeat_cleanup_def clearInterval_def split: option.splits)

lemma filter_start_heartbeats [simp]:
  "filter is_start (map (\<lambda>(sid, pos). SendHeartbeat sid pos) xs) = []"
  by (induction xs) auto

lemma mount_value:
  "mount props b sid t0 =
     \<lparr> playing = False, currentTime = 0, sessionId = sid, sessionStarted = False,
       startTimeRef = 0, mounted = True, heartbeat_cleanup = None, intervals = [],
       next_interval = 0, clock = t0, calls = [], in_flight = [] \<rparr>"
  by (simp add: mount_def initial_def session_effect_def heartbeat_effect_def)

lemma session_inv_step: "session_inv props b s \<Longrightarrow> session_inv props b (step props b s e)"
  by (cases e) (auto simp: session_inv_def starts_def player_defs Let_def)

lemma session_inv_run: "session_inv props b s \<Longrightarrow> session_inv props b (run props b s evs)"
  unfolding run_def by (induction evs arbitrary: s) (simp_all add: session_inv_step)

lemma session_inv_mount: "session_inv props b (mount props b sid t0)"
  by (simp add: session_inv_def starts_def mount_value)

lemma sessionId_step [simp]: "sessionId (step props b s e) = sessionId s"
  by (cases e) (auto simp: player_defs Let_def)

lemma sessionId_run [simp]: "sessionId (run props b s evs) = sessionId s"
  unfolding run_def by (induction evs arbitrary: s) simp_all

lemma heartbeat_inv_commit:
  assumes "heartbeat_inv old" "intervals s = intervals old"
    "heartbeat_cleanup s = heartbeat_cleanup old" "mounted s"
  shows "heartbeat_inv (commit props b old s)"
proof -
  have "heartbeat_inv s"
    using assms by (auto simp: heartbeat_inv_def split: option.splits)
  then have "intervals (run_heartbeat_cleanup s) = []"
    by (rule run_heartbeat_cleanup_intervals)
  with \<open>heartbeat_inv s\<close> assms(4) show ?thesis
    by (auto simp: heartbeat_inv_def commit_def session_effect_def heartbeat_effect_def Let_def
          split: option.splits)
qed

lemma heartbeat_inv_step:
  assumes inv: "heartbeat_inv s"
  shows "heartbeat_inv (step props b s e)"
proof (cases e)
  case (Elapse d)
  with inv show ?thesis
    by (auto simp: heartbeat_inv_def elapse_def Let_def rearm_def comp_def split: option.splits)
next
  case HeartbeatSettled
  with inv show ?thesis by (auto simp: heartbeat_inv_def split: option.splits)
next
  case Unmount
  with inv run_heartbeat_cleanup_intervals [OF inv] show ?thesis
    by (auto simp: heartbeat_inv_def split: option.splits)
qed (use inv in \<open>simp_all add: heartbeat_inv_commit handlePlay_def handlePause_def
       handleTimeUpdate_def handleEnded_def Let_def\<close>)

lemma heartbeat_inv_run: "heartbeat_inv s \<Longrightarrow> heartbeat_inv (run props b s evs)"
  unfolding run_def by (induction evs arbitrary: s) (simp_all add: heartbeat_inv_step)

lemma heartbeat_inv_mount: "heartbeat_inv (mount props b sid t0)"
  by (simp add: heartbeat_inv_def mount_value)

lemma demo_mount_value:
  "demo_mount = \<lparr> playing = False, currentTime = 0, sessionId = ''session-0-abc'',
       sessionStarted = False, startTimeRef = 0, mounted = True, heartbeat_cleanup = None,
       intervals = [], next_interval = 0, clock = 0, calls = [], in_flight = [] \<rparr>"
  by (simp add: demo_mount_def mount_value)

lemma demo_metadata:
  "session_metadata demo_browser =
     \<lparr> device_type = ''desktop'', platform = ''web'', browser = ''Mozilla/5.0'',
       screen_resolution = ''1920x1080'' \<rparr>"
  by code_simp

lemma demo_content: "show_int (contentId demo_props) = ''1''"
  by code_simp

subsection \<open>One session per mount\<close>

lemma mounted_play_pause:
  "set evs \<subseteq> {Play, Pause} \<Longrightarrow> mounted s \<Longrightarrow> mounted (run props b s evs)"
  unfolding run_def
  by (induction evs arbitrary: s) (auto simp: player_defs Let_def)

lemma started_play_pause:
  "set evs \<subseteq> {Play, Pause} \<Longrightarrow> mounted s \<Longrightarrow> session_inv props b s
     \<Longrightarrow> sessionStarted (run props b s evs) = (sessionStarted s \<or> Play \<in> set evs)"
  unfolding run_def
proof (induction evs arbitrary: s)
  case Nil
  then show ?case by simp
next
  case (Cons e evs)
  have m: "mounted (step props b s e)"
    using Cons.prems by (auto simp: player_defs Let_def)
  have i: "session_inv props b (step props b s e)"
    using Cons.prems by (simp add: session_inv_step)
  have st: "sessionStarted (step props b s e) = (sessionStarted s \<or> e = Play)"
    using Cons.prems by (auto simp: session_inv_def player_defs Let_def)
  from Cons.IH [OF _ m i] Cons.prems(1) st show ?case by auto
qed

text \<open>
  Claim C1, as amended. For every sequence of events a mounted player observes, at most
  one \<^verbatim>\<open>startSession\<close> call is issued for that mount. For a sequence of play and pause
  events the calls are exactly one when the sequence contains a play event (the first
  transition to playing starts the session, with the string of the content id, the
  session id of the mount and the metadata of that instant; playing again after a pause
  starts no second one) and none when it contains no play event.
\<close>

theorem one_session_per_mount:
  "length (starts (run props b (mount props b sid t0) evs)) \<le> 1
   \<and> (set evs \<subseteq> {Play, Pause} \<longrightarrow>
        starts (run props b (mount props b sid t0) evs)
          = (if Play \<in> set evs
             then [StartSession (show_int (contentId props)) sid (session_metadata b)]
             else []))"
proof -
  let ?m = "mount props b sid t0"
  have inv: "session_inv props b (run props b ?m evs)"
    by (simp add: session_inv_run session_inv_mount)
  have sid: "sessionId ?m = sid" and fresh: "\<not> sessionStarted ?m" and m: "mounted ?m"
    by (simp_all add: mount_value)
  have le: "length (starts (run props b ?m evs)) \<le> 1"
    using inv by (simp add: session_inv_def)
  have "starts (run props b ?m evs)
          = (if Play \<in> set evs
             then [StartSession (show_int (contentId props)) sid (session_metadata b)]
             else [])" if pp: "set evs \<subseteq> {Play, Pause}"
    using inv started_play_pause [OF pp m session_inv_mount] fresh sid
    by (simp add: session_inv_def)
  with le show ?thesis by blast
qed

theorem one_session_per_mount_witness:
  "set [Play, Pause, Play, Pause, Play] \<subseteq> {Play, Pause}
   \<and> starts (run demo_props demo_browser demo_mount [Play, Pause, Play, Pause, Play])
       = [StartSession ''1'' ''session-0-abc''
            \<lparr> device_type = ''desktop'', platform = ''web'', browser = ''Mozilla/5.0'',
              screen_resolution = ''1920x1080'' \<rparr>]"
  using one_session_per_mount [of demo_props demo_browser "''session-0-abc''" 0
          "[Play, Pause, Play, Pause, Play]"]
  by (simp add: demo_mount_def demo_metadata demo_content)

text \<open>A mount on which nothing is played, or which only sees a pause event, issues no
  \<^verbatim>\<open>startSession\<close> call: the number of calls is not one.\<close>

theorem no_session_without_play:
  "length (starts (run demo_props demo_browser demo_mount [])) \<noteq> 1
   \<and> length (starts (run demo_props demo_browser demo_mount [Pause])) \<noteq> 1"
  by (simp add: run_def demo_mount_value starts_def player_defs Let_def)

subsection \<open>The end of a session\<close>

lemma run_append: "run props b s (xs @ ys) = run props b (run props b s xs) ys"
  by (simp add: run_def)

lemma run_Cons: "run props b s (e # evs) = run props b (step props b s e) evs"
  by (simp add: run_def)

lemma started_step:
  "sessionStarted s
     \<Longrightarrow> sessionStarted (step props b s e) \<and> startTimeRef (step props b s e) = startTimeRef s"
  by (cases e) (auto simp: player_defs Let_def)

lemma started_run:
  "sessionStarted s
     \<Longrightarrow> sessionStarted (run props b s evs) \<and> startTimeRef (run props b s evs) = startTimeRef s"
  unfolding run_def
proof (induction evs arbitrary: s)
  case Nil
  then show ?case by simp
next
  case (Cons e evs)
  from Cons.IH [of "step props b s e"] started_step [OF Cons.prems, of props b e]
  show ?case by simp
qed

lemma first_play:
  "mounted s \<Longrightarrow> \<not> playing s \<Longrightarrow> \<not> sessionStarted s
     \<Longrightarrow> sessionStarted (step props b s Play) \<and> startTimeRef (step props b s Play) = clock s
         \<and> calls (step props b s Play)
             = calls s @ [StartSession (show_int (contentId props)) (sessionId s)
                            (session_metadata b)]"
  by (simp add: player_defs Let_def)

lemma ended_calls:
  "mounted s \<Longrightarrow> calls (step props b s Ended)
     = calls s @ [EndSession (sessionId s) ((clock s - startTimeRef s) div 1000)]
         @ (if onEnded props then [OnEndedCallback] else [])"
  by (simp add: player_defs Let_def)

lemmas player_eval =
  player_defs run_heartbeat_cleanup_def clearInterval_def fire_count_def rearm_def Let_def

lemma filter_end_heartbeats [simp]:
  "filter is_end (map (\<lambda>(sid, pos). SendHeartbeat sid pos) xs) = []"
  by (induction xs) auto

text \<open>Only the handler of the ended event calls \<^verbatim>\<open>endSession\<close>, and it calls it once.\<close>

lemma ends_step:
  "ends (step props b s e)
     = ends s @ (if e = Ended \<and> mounted s
                 then [EndSession (sessionId s) ((clock s - startTimeRef s) div 1000)]
                 else [])"
  by (cases e) (auto simp: ends_def player_defs Let_def)

lemma unmounted_stays: "\<not> mounted s \<Longrightarrow> \<not> mounted (step props b s e)"
  by (cases e) (simp_all add: elapse_def Let_def)

lemma mounted_before: "mounted (run props b s evs) \<Longrightarrow> mounted s"
proof (induction evs arbitrary: s)
  case Nil
  then show ?case by (simp add: run_def)
next
  case (Cons e evs)
  then have "mounted (step props b s e)"
    by (simp add: run_Cons)
  then show ?case
    using unmounted_stays [of s props b e] by blast
qed

lemma ends_run_mounted:
  "mounted (run props b s evs)
     \<Longrightarrow> length (ends (run props b s evs))
           = length (ends s) + length (filter (\<lambda>e. e = Ended) evs)"
proof (induction evs arbitrary: s)
  case Nil
  then show ?case by (simp add: run_def)
next
  case (Cons e evs)
  from Cons.prems have later: "mounted (run props b (step props b s e) evs)"
    by (simp add: run_Cons)
  then have "mounted (step props b s e)"
    by (rule mounted_before)
  then have "mounted s"
    using unmounted_stays [of s props b e] by blast
  with Cons.IH [OF later] show ?case
    by (simp add: run_Cons ends_step)
qed

text \<open>
  Claim C4, as amended. Let the session start when a play event reaches a mounted player
  that has not played yet, at the instant \<open>clock s\<close>, and let \<open>s'\<close> be the state of the
  still mounted player after any further events \<open>evs\<close>. An ended event at the instant
  \<open>clock s'\<close> issues exactly one \<^verbatim>\<open>endSession\<close> call, for the session id of the mount and
  with the wall-clock time elapsed between the two instants, rounded down to whole seconds;
  the completion callback, when one was supplied, is invoked right after that call is
  issued and without waiting for its result. No other event issues an \<^verbatim>\<open>endSession\<close>
  call, so the number of \<^verbatim>\<open>endSession\<close> calls issued during \<open>evs\<close> is the number of
  ended events in \<open>evs\<close>: one call per ended event, and none elsewhere.
\<close>

theorem ended_watch_time:
  assumes "mounted s" "\<not> playing s" "\<not> sessionStarted s"
    and "s' = run props b (step props b s Play) evs" "mounted s'"
  shows "calls (step props b s' Ended)
           = calls s' @ [EndSession (sessionId s) ((clock s' - clock s) div 1000)]
               @ (if onEnded props then [OnEndedCallback] else [])
         \<and> ends (step props b s' Ended)
             = ends s' @ [EndSession (sessionId s) ((clock s' - clock s) div 1000)]
         \<and> (\<forall>e. e \<noteq> Ended \<longrightarrow> ends (step props b s' e) = ends s')
         \<and> length (ends s') = length (ends s) + length (filter (\<lambda>e. e = Ended) evs)"
proof -
  from first_play [OF assms(1-3)]
  have "sessionStarted (step props b s Play)" "startTimeRef (step props b s Play) = clock s"
    by simp_all
  with started_run [of "step props b s Play" props b evs] assms(4)
  have ref: "startTimeRef s' = clock s" by simp
  have sid: "sessionId s' = sessionId s"
    by (simp only: assms(4) sessionId_run sessionId_step)
  have a: "calls (step props b s' Ended)
           = calls s' @ [EndSession (sessionId s) ((clock s' - clock s) div 1000)]
               @ (if onEnded props then [OnEndedCallback] else [])"
    using ended_calls [OF assms(5)] ref sid by simp
  have b: "ends (step props b s' Ended)
             = ends s' @ [EndSession (sessionId s) ((clock s' - clock s) div 1000)]"
    using assms(5) ref sid by (simp only: ends_step) simp
  have c: "\<forall>e. e \<noteq> Ended \<longrightarrow> ends (step props b s' e) = ends s'"
    by (simp only: ends_step) simp
  have "mounted (run props b (step props b s Play) evs)"
    using assms(4,5) by simp
  from ends_run_mounted [OF this]
  have "length (ends s')
          = length (ends (step props b s Play)) + length (filter (\<lambda>e. e = Ended) evs)"
    using assms(4) by simp
  moreover have "ends (step props b s Play) = ends s"
    by (simp only: ends_step) simp
  ultimately have d: "length (ends s') = length (ends s) + length (filter (\<lambda>e. e = Ended) evs)"
    by simp
  from a b c d show ?thesis by (iprover intro: conjI)
qed

theorem ended_watch_time_witness:
  "mounted demo_mount \<and> \<not> playing demo_mount \<and> \<not> sessionStarted demo_mount
   \<and> mounted (run demo_props demo_browser (step demo_props demo_browser demo_mount Play)
                [Elapse 45000, Ended, Play, Elapse 20000, Pause, Elapse 5000, Play, Elapse 20500])
   \<and> calls (step demo_props demo_browser
       (run demo_props demo_browser (step demo_props demo_browser demo_mount Play)
          [Elapse 45000, Ended, Play, Elapse 20000, Pause, Elapse 5000, Play, Elapse 20500])
       Ended)
     = calls (run demo_props demo_browser (step demo_props demo_browser demo_mount Play)
          [Elapse 45000, Ended, Play, Elapse 20000, Pause, Elapse 5000, Play, Elapse 20500])
       @ [EndSession ''session-0-abc'' 90, OnEndedCallback]
   \<and> length (ends (run demo_props demo_browser (step demo_props demo_browser demo_mount Play)
          [Elapse 45000, Ended, Play, Elapse 20000, Pause, Elapse 5000, Play, Elapse 20500]))
       = 1
   \<and> ends (step demo_props demo_browser
        (run demo_props demo_browser (step demo_props demo_browser demo_mount Play)
          [Elapse 45000, Ended, Play, Elapse 20000, Pause, Elapse 5000, Play, Elapse 20500])
        Pause)
      = ends (run demo_props demo_browser (step demo_props demo_browser demo_mount Play)
          [Elapse 45000, Ended, Play, Elapse 20000, Pause, Elapse 5000, Play, Elapse 20500])"
proof -
  let ?evs = "[Elapse 45000, Ended, Play, Elapse 20000, Pause, Elapse 5000, Play, Elapse 20500]"
  let ?s' = "run demo_props demo_browser (step demo_props demo_browser demo_mount Play) ?evs"
  have m: "mounted demo_mount" "\<not> playing demo_mount" "\<not> sessionStarted demo_mount"
    "sessionId demo_mount = ''session-0-abc''" "clock demo_mount = 0"
    by (simp_all add: demo_mount_value)
  have e0: "ends demo_mount = []"
    by (simp add: ends_def demo_mount_value)
  have m': "mounted ?s'" and c': "clock ?s' = 90500"
    by (simp_all add: run_def demo_mount_value player_eval)
  have o: "onEnded demo_props" by (simp add: demo_props_def)
  have p: "Pause \<noteq> Ended" by simp
  note t = ended_watch_time [OF m(1-3) refl m']
  from t m(4,5) c' o
  have a: "calls (step demo_props demo_browser ?s' Ended)
          = calls ?s' @ [EndSession ''session-0-abc'' 90, OnEndedCallback]"
    by simp
  from t e0 have b: "length (ends ?s') = 1"
    by simp
  from t p have c: "ends (step demo_props demo_browser ?s' Pause) = ends ?s'"
    by blast
  from m(1-3) m' a b c show ?thesis
    by (iprover intro: conjI)
qed

text \<open>A viewer who plays the video to its end, plays it again and lets it end again: the
  mount has started one session, and \<^verbatim>\<open>endSession\<close> is called twice for it.\<close>

theorem ended_twice:
  "length (starts (run demo_props demo_browser demo_mount
              [Play, Elapse 45000, Ended, Play, Elapse 45000, Ended])) = 1
   \<and> ends (run demo_props demo_browser demo_mount
              [Play, Elapse 45000, Ended, Play, Elapse 45000, Ended])
       = [EndSession ''session-0-abc'' 45, EndSession ''session-0-abc'' 90]"
  by (simp add: run_def starts_def ends_def demo_mount_value player_eval demo_props_def)

subsection \<open>The heartbeat timer\<close>

lemma heartbeat_inv_length:
  assumes "heartbeat_inv s"
  shows "length (intervals s) \<le> 1"
proof -
  from assms have "length (map interval_id (intervals s)) \<le> 1"
    by (auto simp: heartbeat_inv_def split: option.splits)
  then show ?thesis by simp
qed

lemma unmounted_step:
  "\<not> mounted s \<Longrightarrow> intervals s = []
     \<Longrightarrow> \<not> mounted (step props b s e) \<and> intervals (step props b s e) = []
         \<and> calls (step props b s e) = calls s"
  by (cases e) (simp_all add: elapse_def)

lemma unmounted_run:
  "\<not> mounted s \<Longrightarrow> intervals s = []
     \<Longrightarrow> intervals (run props b s evs) = [] \<and> calls (run props b s evs) = calls s"
proof (induction evs arbitrary: s)
  case Nil
  then show ?case by (simp add: run_def)
next
  case (Cons e evs)
  from unmounted_step [OF Cons.prems, of props b e] Cons.IH [of "step props b s e"]
  show ?case by (simp add: run_Cons)
qed

lemma unmount_step:
  "heartbeat_inv s
     \<Longrightarrow> \<not> mounted (step props b s Unmount) \<and> intervals (step props b s Unmount) = []
         \<and> calls (step props b s Unmount) = calls s"
  by (auto simp: run_heartbeat_cleanup_intervals heartbeat_inv_def split: option.splits)

text \<open>
  Claim C7, as amended. At every instant at most one heartbeat interval is armed for a
  mount: each run of the heartbeat effect is preceded by the cleanup of the previous run,
  which clears the interval that run had armed. After unmount, in any state and whatever
  happens later, no interval remains armed and no further heartbeat is sent. Nothing is
  said about heartbeat requests in flight.
\<close>

theorem one_heartbeat_timer:
  "length (intervals (run props b (mount props b sid t0) evs)) \<le> 1
   \<and> intervals (run props b (mount props b sid t0) (evs @ Unmount # later)) = []
   \<and> heartbeats (run props b (mount props b sid t0) (evs @ Unmount # later))
       = heartbeats (run props b (mount props b sid t0) evs)"
proof -
  let ?s = "run props b (mount props b sid t0) evs"
  have inv: "heartbeat_inv ?s"
    by (simp add: heartbeat_inv_run heartbeat_inv_mount)
  have split: "run props b (mount props b sid t0) (evs @ Unmount # later)
                 = run props b (step props b ?s Unmount) later"
    by (simp only: run_append run_Cons)
  from unmount_step [OF inv, of props b]
  have u: "\<not> mounted (step props b ?s Unmount)" "intervals (step props b ?s Unmount) = []"
    "calls (step props b ?s Unmount) = calls ?s"
    by simp_all
  from unmounted_run [OF u(1,2), of props b later] u(3) split
  have "intervals (run props b (mount props b sid t0) (evs @ Unmount # later)) = []"
    "calls (run props b (mount props b sid t0) (evs @ Unmount # later)) = calls ?s"
    by simp_all
  with heartbeat_inv_length [OF inv] show ?thesis
    by (simp add: heartbeats_def)
qed

theorem one_heartbeat_timer_witness:
  "length (intervals (run demo_props demo_browser demo_mount
       [Play, Elapse 1000, TimeUpdate 1, Pause, Play, Elapse 30000])) = 1
   \<and> intervals (run demo_props demo_browser demo_mount
       ([Play, Elapse 1000, TimeUpdate 1, Pause, Play, Elapse 30000]
          @ Unmount # [Elapse 60000, Play, Elapse 60000])) = []
   \<and> heartbeats (run demo_props demo_browser demo_mount
       ([Play, Elapse 1000, TimeUpdate 1, Pause, Play, Elapse 30000]
          @ Unmount # [Elapse 60000, Play, Elapse 60000]))
      = [SendHeartbeat ''session-0-abc'' 1]"
proof -
  let ?evs = "[Play, Elapse 1000, TimeUpdate 1, Pause, Play, Elapse 30000]"
  have i: "length (intervals (run demo_props demo_browser demo_mount ?evs)) = 1"
    by (simp add: run_def demo_mount_value player_eval)
  have h: "heartbeats (run demo_props demo_browser demo_mount ?evs)
             = [SendHeartbeat ''session-0-abc'' 1]"
    by (simp add: run_def heartbeats_def demo_mount_value player_eval)
  from one_heartbeat_timer [of demo_props demo_browser "''session-0-abc''" 0 ?evs
         "[Elapse 60000, Play, Elapse 60000]"] i h
  show ?thesis by (simp add: demo_mount_def)
qed

text \<open>The interval fires every 30 seconds whether or not the previous request has
  settled: after 60 seconds of playing, with no response yet, two heartbeat requests of
  the same session are in flight.\<close>

theorem two_heartbeats_in_flight:
  "in_flight (run demo_props demo_browser demo_mount [Play, Elapse 60000])
     = [(''session-0-abc'', 0), (''session-0-abc'', 0)]"
  by (simp add: run_def demo_mount_value player_eval)

subsection \<open>The heartbeat during playback\<close>

lemma freshly_armed_play:
  "freshly_armed (step props b (mount props b sid t0) Play)
   \<and> currentTime (step props b (mount props b sid t0) Play) = 0
   \<and> clock (step props b (mount props b sid t0) Play) = t0"
  by (simp add: freshly_armed_def heartbeats_def mount_value player_eval)

text \<open>A position update that changes \<^verbatim>\<open>currentTime\<close> re-runs the heartbeat effect, which
  clears the armed interval and arms a new one, due 30 seconds after the update.\<close>

lemma freshly_armed_quarter:
  assumes "freshly_armed s" "currentTime s \<noteq> x"
  shows "freshly_armed (step props b (step props b s (Elapse 250)) (TimeUpdate x))
         \<and> currentTime (step props b (step props b s (Elapse 250)) (TimeUpdate x)) = x
         \<and> clock (step props b (step props b s (Elapse 250)) (TimeUpdate x)) = clock s + 250"
proof -
  from assms(1) obtain t where t: "intervals s = [t]" "heartbeat_cleanup s = Some (interval_id t)"
      "due t = clock s + 30000" and s: "mounted s" "playing s" "heartbeats s = []"
    by (auto simp: freshly_armed_def)
  let ?e = "step props b s (Elapse 250)"
  have e: "intervals ?e = [t]" "heartbeat_cleanup ?e = Some (interval_id t)"
      "calls ?e = calls s" "mounted ?e" "playing ?e" "currentTime ?e = currentTime s"
      "clock ?e = clock s + 250"
    using t s by (simp_all add: elapse_def fire_count_def rearm_def)
  have c: "intervals (run_heartbeat_cleanup (handleTimeUpdate x ?e)) = []"
    using e by (simp add: run_heartbeat_cleanup_def clearInterval_def handleTimeUpdate_def)
  show ?thesis
    using e c assms(2) s(3)
    by (simp add: freshly_armed_def heartbeats_def commit_def session_effect_def
          heartbeat_effect_def handleTimeUpdate_def Let_def)
qed

lemma watching_armed:
  "freshly_armed (run props b (mount props b sid t0) (watching n))
   \<and> currentTime (run props b (mount props b sid t0) (watching n)) = real n / 4
   \<and> clock (run props b (mount props b sid t0) (watching n)) = t0 + 250 * int n"
proof (induction n)
  case 0
  show ?case using freshly_armed_play [of props b sid t0] by (simp add: run_def)
next
  case (Suc n)
  let ?s = "run props b (mount props b sid t0) (watching n)"
  have ne: "currentTime ?s \<noteq> real (Suc n) / 4"
    using Suc by simp
  have "run props b (mount props b sid t0) (watching (Suc n))
          = step props b (step props b ?s (Elapse 250)) (TimeUpdate (real (Suc n) / 4))"
    by (simp add: run_def)
  with freshly_armed_quarter [OF _ ne, of props b] Suc show ?case
    by simp
qed

text \<open>
  Claim C2. The claim asks for a heartbeat every 30 seconds of wall-clock time while
  playing, carrying the current position: playing from t = 0 for 30 seconds yields exactly
  one \<^verbatim>\<open>sendHeartbeat(sid, 30)\<close>. The code does not do that. When the video element
  reports its position while playing (here every 250 ms), 30 seconds after the play event
  the player is still playing, its position is 30, and no heartbeat has been sent: the
  interval is cleared and armed anew on every position update (by the lemma above, this
  goes on for a playback of any length). When no position update reaches the component,
  one heartbeat is sent after 30 seconds, with the position 0 the interval's closure holds.
\<close>

theorem no_heartbeat_after_30s:
  "clock (run props b (mount props b sid t0) (watching 120)) = t0 + 30000
   \<and> playing (run props b (mount props b sid t0) (watching 120))
   \<and> currentTime (run props b (mount props b sid t0) (watching 120)) = 30
   \<and> heartbeats (run props b (mount props b sid t0) (watching 120)) = []
   \<and> heartbeats (run props b (mount props b sid t0) [Play, Elapse 30000])
       = [SendHeartbeat sid 0]"
proof -
  have "heartbeats (run props b (mount props b sid t0) [Play, Elapse 30000])
          = [SendHeartbeat sid 0]"
    by (simp add: run_def heartbeats_def mount_value player_eval)
  with watching_armed [of props b sid t0 120] show ?thesis
    by (simp add: freshly_armed_def)
qed

end
